theory Spec2Isabelle
  imports
    Complex_Main
    "HOL-Library.Word"
    "HOL-Library.Multiset"
    "HOL-Library.Char_ord"
    "HOL-Library.List_Lexorder"
    "HOL-Library.Product_Lexorder"
begin

section \<open>Numbers as the program has them\<close>

text \<open>
  The program is a script over one table. The model starts at \<open>df_raw\<close> (line 32), the
  table that \<open>load_data\<close> returns, and follows the script line by line to the charts.

  A quantity is an int64 (\<open>64 word\<close>, read as a signed number with \<open>sint\<close>; sums of
  quantities wrap around). A unit price is a finite float64, given by its value, a
  rational number. What the program computes from prices is a float64 again: a finite
  value, or an infinity when a product overflows (\<open>f64\<close>); a product of a quantity
  and a finite price is never NaN.
\<close>

datatype f64 = NInf | Fin rat | PInf

fun bits :: "nat \<Rightarrow> nat" where
  \<comment> \<open>the number of binary digits of \<open>n\<close>\<close>
  "bits n = (if n = 0 then 0 else Suc (bits (n div 2)))"

declare bits.simps [simp del]

definition ilog2 :: "rat \<Rightarrow> int" where
  \<comment> \<open>for \<open>a > 0\<close>, the exponent \<open>e\<close> with \<open>2 ^ e \<le> a < 2 ^ (e + 1)\<close>\<close>
  "ilog2 a = (if 1 \<le> a then int (bits (nat \<lfloor>a\<rfloor>)) - 1
              else - int (bits (nat (\<lceil>1 / a\<rceil> - 1))))"

definition pow2 :: "int \<Rightarrow> rat" where
  "pow2 e = (if 0 \<le> e then 2 ^ nat e else 1 / 2 ^ nat (- e))"

definition round_half_even :: "rat \<Rightarrow> int" where
  \<comment> \<open>the nearest integer, the even one of two equally near\<close>
  "round_half_even x =
     (let f = \<lfloor>x\<rfloor>; d = x - of_int f
      in if d < 1 / 2 then f else if 1 / 2 < d then f + 1 else if even f then f else f + 1)"

definition round53 :: "rat \<Rightarrow> rat" where
  \<comment> \<open>IEEE 754 binary64 rounding to nearest, ties to even, before the overflow test: 53
      significant bits, and the fixed spacing \<open>2 ^ - 1074\<close> below \<open>2 ^ - 1022\<close>\<close>
  "round53 x =
     (if x = 0 then 0
      else let a = \<bar>x\<bar>;
               u = pow2 (max (ilog2 a) (- 1022) - 52);
               y = of_int (round_half_even (a / u)) * u
           in if 0 < x then y else - y)"

definition f64_round :: "rat \<Rightarrow> f64" where
  \<comment> \<open>the float64 nearest to \<open>x\<close>; an infinity from \<open>2 ^ 1024\<close> on\<close>
  "f64_round x =
     (let y = round53 x
      in if pow2 1024 \<le> y then PInf else if y \<le> - pow2 1024 then NInf else Fin y)"

definition float_of_int64 :: "64 word \<Rightarrow> rat" where
  \<comment> \<open>the conversion of an int64 to float64; it cannot overflow\<close>
  "float_of_int64 q = round53 (of_int (sint q))"

definition f64_mul :: "64 word \<Rightarrow> rat \<Rightarrow> f64" where
  \<comment> \<open>an int64 column times a float64 column: the integer is converted, the product is
      rounded\<close>
  "f64_mul q p = f64_round (float_of_int64 q * p)"

definition f64_div :: "f64 \<Rightarrow> nat \<Rightarrow> f64" where
  \<comment> \<open>a float64 divided by a positive Python integer\<close>
  "f64_div v n = (case v of Fin a \<Rightarrow> f64_round (a / of_nat n) | NInf \<Rightarrow> NInf | PInf \<Rightarrow> PInf)"

type_synonym sort_key = "int \<times> rat"

definition key_f64 :: "f64 \<Rightarrow> sort_key" where
  \<comment> \<open>the order of float64 values, as a key\<close>
  "key_f64 v = (case v of NInf \<Rightarrow> (- 1, 0) | Fin a \<Rightarrow> (0, a) | PInf \<Rightarrow> (1, 0))"

definition key_int64 :: "64 word \<Rightarrow> sort_key" where
  "key_int64 q = (0, of_int (sint q))"

definition descending :: "sort_key \<Rightarrow> sort_key" where
  "descending k = (- fst k, - snd k)"


section \<open>The pandas operations used by app.py\<close>

text \<open>
  A DataFrame is a list of rows (one record per row, in table order), a Series with an
  index is a list of (label, value) pairs. Strings are byte lists ordered
  lexicographically, as Python orders them by code point.

  The script leaves three things to the library, and the model takes them as parameters:
  whether \<open>groupby\<close> on a categorical key keeps the categories that do not occur (the
  default of \<open>observed\<close>, \<open>False\<close> in pandas 1.x and 2.x, \<open>True\<close> in pandas 3); how a
  column of float64 values is added up, by \<open>Series.sum\<close> and by a grouped \<open>sum\<close>
  (the result depends on the order and the algorithm of the additions); and in which
  order the default sort of \<open>sort_values\<close> lists equal values (it is not stable).
\<close>

record pandas =
  observed :: bool
  series_sum :: "f64 list \<Rightarrow> f64"
  group_sum :: "f64 list \<Rightarrow> f64"
  tie :: "sort_key list \<Rightarrow> nat \<Rightarrow> nat"

primrec unique :: "'a list \<Rightarrow> 'a list" where
  \<comment> \<open>\<open>Series.unique()\<close>: distinct values in order of first appearance\<close>
  "unique [] = []"
| "unique (x # xs) = x # filter (\<lambda>y. y \<noteq> x) (unique xs)"

definition nunique :: "'a list \<Rightarrow> nat" where
  "nunique xs = length (unique xs)"

definition isin :: "'a \<Rightarrow> 'a list \<Rightarrow> bool" where
  "isin x vals = (x \<in> set vals)"

definition groupby :: "('r \<Rightarrow> 'k::linorder) \<Rightarrow> 'r list \<Rightarrow> ('k \<times> 'r list) list" where
  \<comment> \<open>\<open>df.groupby(key)\<close> with the default \<open>sort=True\<close>: one group per distinct key,
      groups in ascending key order, rows of a group in table order\<close>
  "groupby key rows =
     map (\<lambda>k. (k, filter (\<lambda>r. key r = k) rows)) (sort (unique (map key rows)))"

definition groupby_categorical ::
  "pandas \<Rightarrow> 'k list \<Rightarrow> ('r \<Rightarrow> 'k option) \<Rightarrow> 'r list \<Rightarrow> ('k \<times> 'r list) list" where
  \<comment> \<open>\<open>df.groupby(key)\<close> on a categorical column: one group per category, in category
      order; a category without rows is kept when \<open>observed\<close> is \<open>False\<close> and left out
      when it is \<open>True\<close>; rows whose key is missing belong to no group\<close>
  "groupby_categorical pd categories key rows =
     map (\<lambda>c. (c, filter (\<lambda>r. key r = Some c) rows))
       (if observed pd then filter (\<lambda>c. Some c \<in> set (map key rows)) categories
        else categories)"

definition groupby_categorical2 ::
  "pandas \<Rightarrow> 'k list \<Rightarrow> ('r \<Rightarrow> 'k option) \<Rightarrow> ('r \<Rightarrow> 'h::linorder) \<Rightarrow> 'r list
     \<Rightarrow> (('k \<times> 'h) \<times> 'r list) list" where
  \<comment> \<open>\<open>df.groupby([key1, key2])\<close>, \<open>key1\<close> categorical: with \<open>observed\<close> \<open>False\<close> the
      groups are the product of all categories with the distinct values of \<open>key2\<close>, with
      \<open>observed\<close> \<open>True\<close> only the pairs that occur; in category order, then ascending\<close>
  "groupby_categorical2 pd categories key1 key2 rows =
     map (\<lambda>(c, h). ((c, h), filter (\<lambda>r. key1 r = Some c \<and> key2 r = h) rows))
       (if observed pd
        then filter (\<lambda>(c, h). (Some c, h) \<in> set (map (\<lambda>r. (key1 r, key2 r)) rows))
               (List.product categories (sort (unique (map key2 rows))))
        else List.product categories (sort (unique (map key2 rows))))"

definition agg_sum_int64 ::
  "('r \<Rightarrow> 64 word) \<Rightarrow> ('k \<times> 'r list) list \<Rightarrow> ('k \<times> 64 word) list" where
  \<comment> \<open>\<open>grouped[col].sum()\<close> on an int64 column: the sum wraps around\<close>
  "agg_sum_int64 col groups = map (\<lambda>(k, g). (k, sum_list (map col g))) groups"

definition sum_f64 :: "(f64 list \<Rightarrow> f64) \<Rightarrow> f64 list \<Rightarrow> f64" where
  \<comment> \<open>a sum of float64 values: the sum of no values is 0, the sum of one value is that
      value, and a longer sum is what the library's additions give\<close>
  "sum_f64 additions vs = (case vs of [] \<Rightarrow> Fin 0 | [v] \<Rightarrow> v | _ \<Rightarrow> additions vs)"

definition group_total :: "pandas \<Rightarrow> f64 list \<Rightarrow> f64" where
  \<comment> \<open>the grouped sum of the float64 values of one group\<close>
  "group_total pd vs = sum_f64 (group_sum pd) vs"

definition agg_sum_f64 ::
  "pandas \<Rightarrow> ('r \<Rightarrow> f64) \<Rightarrow> ('k \<times> 'r list) list \<Rightarrow> ('k \<times> f64) list" where
  \<comment> \<open>\<open>grouped[col].sum()\<close> on a float64 column\<close>
  "agg_sum_f64 pd col groups = map (\<lambda>(k, g). (k, group_total pd (map col g))) groups"

definition sort_values_descending ::
  "pandas \<Rightarrow> ('e \<Rightarrow> sort_key) \<Rightarrow> 'e list \<Rightarrow> 'e list" where
  \<comment> \<open>\<open>sort_values(ascending=False)\<close> with the default sort: descending values, equal
      values in the order the library's sort leaves them in\<close>
  "sort_values_descending pd key xs =
     map snd (sort_key (\<lambda>(i, e). (descending (key e), tie pd (map key xs) i))
                (enumerate 0 xs))"

definition nlargest :: "pandas \<Rightarrow> nat \<Rightarrow> ('e \<Rightarrow> sort_key) \<Rightarrow> 'e list \<Rightarrow> 'e list" where
  \<comment> \<open>\<open>nlargest(n, col)\<close> with the default \<open>keep='first'\<close>. A table of more than \<open>n\<close>
      rows: the \<open>n\<close> largest values in descending order, equal values in table order,
      the first occurrences kept. A table of at most \<open>n\<close> rows:
      \<open>sort_values(ascending=False).head(n)\<close>\<close>
  "nlargest pd n key xs =
     (if n < length xs then take n (sort_key (\<lambda>e. descending (key e)) xs)
      else take n (sort_values_descending pd key xs))"

record ('i, 'c, 'v) frame =
  index :: "'i list"
  columns :: "'c list"
  cells :: "'v list list"

definition unstack :: "(('i \<times> 'c::linorder) \<times> 'v) list \<Rightarrow> 'v \<Rightarrow> ('i, 'c, 'v) frame" where
  \<comment> \<open>\<open>series.unstack(fill_value=v)\<close>: the inner index level becomes the columns
      (ascending), the outer level stays the row index, in the order \<open>groupby\<close> gave it;
      a (row, column) pair that the series does not have is filled with \<open>v\<close>\<close>
  "unstack s fill_value =
     (let idx = unique (map (fst \<circ> fst) s);
          cols = sort (unique (map (snd \<circ> fst) s))
      in \<lparr>index = idx, columns = cols,
          cells = map (\<lambda>i. map (\<lambda>c. case map_of s (i, c) of
                                         Some v \<Rightarrow> v | None \<Rightarrow> fill_value) cols) idx\<rparr>)"

definition Categorical :: "string list \<Rightarrow> string option \<Rightarrow> string option" where
  \<comment> \<open>\<open>pd.Categorical(values, categories=cs)\<close>, on one value: a value that is not one
      of the categories becomes the missing value; nothing is raised\<close>
  "Categorical categories v =
     (case v of None \<Rightarrow> None
      | Some s \<Rightarrow> if s \<in> set categories then Some s else None)"

definition astype_int :: "rat \<Rightarrow> int" where
  \<comment> \<open>\<open>astype(int)\<close> on a float64 column: the value truncated towards zero as an int64;
      a value outside the int64 range gives the smallest int64\<close>
  "astype_int q =
     (let t = (if 0 \<le> q then \<lfloor>q\<rfloor> else \<lceil>q\<rceil>)
      in if - (2 ^ 63) \<le> t \<and> t < 2 ^ 63 then t else - (2 ^ 63))"


section \<open>Timestamps\<close>

record timestamp =
  year :: nat
  month :: nat
  day :: nat
  hour :: nat
  minute :: nat
  second :: nat

definition sorted_month_table :: "int list" where
  "sorted_month_table = [0, 3, 2, 5, 0, 3, 5, 1, 4, 6, 2, 4]"

definition dayofweek :: "nat \<Rightarrow> nat \<Rightarrow> nat \<Rightarrow> nat" where
  \<comment> \<open>pandas' day of the week (Sakamoto's method), Monday = 0; a timestamp's month is
      always between 1 and 12, the table is not read outside\<close>
  "dayofweek y m d =
     (let y' = int y - (if m < 3 then 1 else 0);
          t = (if 1 \<le> m \<and> m \<le> 12 then sorted_month_table ! (m - 1) else 0);
          dd = (y' + y' div 4 - y' div 100 + y' div 400 + t + int d) mod 7
      in nat ((dd + 6) mod 7))"

definition DAYS_FULL :: "string list" where
  "DAYS_FULL = [''Monday'', ''Tuesday'', ''Wednesday'', ''Thursday'', ''Friday'',
                ''Saturday'', ''Sunday'']"

definition day_name :: "timestamp \<Rightarrow> string" where
  \<comment> \<open>\<open>.dt.day_name()\<close>, English names\<close>
  "day_name ts = DAYS_FULL ! dayofweek (year ts) (month ts) (day ts)"

definition digit :: "nat \<Rightarrow> char" where
  "digit n = ''0123456789'' ! (n mod 10)"

definition period_M_str :: "timestamp \<Rightarrow> string" where
  \<comment> \<open>\<open>.dt.to_period('M').astype(str)\<close>: \<open>YYYY-MM\<close>; a timestamp's year has four digits\<close>
  "period_M_str ts =
     [digit (year ts div 1000), digit (year ts div 100), digit (year ts div 10),
      digit (year ts), CHR ''-'', digit (month ts div 10), digit (month ts)]"


section \<open>The rows\<close>

text \<open>
  The columns of the raw table that the program reads. \<open>CustomerID\<close> is a nullable number
  in the raw table (\<open>rat option\<close>), a number after \<open>dropna\<close> and an int64 after
  \<open>astype(int)\<close>. \<open>InvoiceDate\<close> is a date and time in every row, as line 26 and the
  data model have it.
\<close>

record 'c txn =
  InvoiceNo :: string
  Description :: string
  Quantity :: "64 word"
  InvoiceDate :: timestamp
  UnitPrice :: rat
  CustomerID :: 'c
  Country :: string

record line = "int txn" +
  TotalPrice :: f64
  YearMonth :: string
  Month :: nat
  DayOfWeek :: "string option"
  Hour :: nat

definition with_CustomerID :: "'d \<Rightarrow> 'c txn \<Rightarrow> 'd txn" where
  "with_CustomerID c r =
     \<lparr>InvoiceNo = InvoiceNo r, Description = Description r, Quantity = Quantity r,
      InvoiceDate = InvoiceDate r, UnitPrice = UnitPrice r, CustomerID = c,
      Country = Country r\<rparr>"


section \<open>Preprocessing (app.py, lines 33 to 53)\<close>

definition dropna_CustomerID :: "rat option txn list \<Rightarrow> rat txn list" where
  \<comment> \<open>line 37\<close>
  "dropna_CustomerID rows =
     List.map_filter
       (\<lambda>r. case CustomerID r of None \<Rightarrow> None | Some c \<Rightarrow> Some (with_CustomerID c r)) rows"

definition sanitize :: "rat option txn list \<Rightarrow> int txn list" where
  \<comment> \<open>lines 37, 38 and 42\<close>
  "sanitize df_raw =
     (let df = dropna_CustomerID df_raw;
          df = map (\<lambda>r. with_CustomerID (astype_int (CustomerID r)) r) df
      in filter (\<lambda>r. 0 < sint (Quantity r) \<and> 0 < UnitPrice r) df)"

definition day_order :: "string list" where
  \<comment> \<open>line 52\<close>
  "day_order = [''Monday'', ''Tuesday'', ''Wednesday'', ''Thursday'', ''Friday'',
                ''Saturday'', ''Sunday'']"

definition derive :: "int txn \<Rightarrow> line" where
  \<comment> \<open>lines 45 to 49\<close>
  "derive r =
     txn.extend r
       (line.fields
          (f64_mul (Quantity r) (UnitPrice r))
          (period_M_str (InvoiceDate r))
          (month (InvoiceDate r))
          (Some (day_name (InvoiceDate r)))
          (hour (InvoiceDate r)))"

definition categorize :: "line \<Rightarrow> line" where
  \<comment> \<open>line 53\<close>
  "categorize r = r\<lparr>DayOfWeek := Categorical day_order (DayOfWeek r)\<rparr>"

definition preprocess :: "rat option txn list \<Rightarrow> line list" where
  "preprocess df_raw = map categorize (map derive (sanitize df_raw))"


section \<open>The month filter (lines 61 to 77)\<close>

datatype notice =
  All_months_selected  \<comment> \<open>line 72: all months are selected, please select months\<close>
| No_matching_data     \<comment> \<open>line 76: no data for the selected filter, adjust the filter\<close>

datatype message = St_sidebar_warning notice | St_warning notice

definition month_options :: "line list \<Rightarrow> nat list" where
  \<comment> \<open>line 63: the options (and the default) of the multiselect\<close>
  "month_options df = sort (unique (map Month df))"

definition time_filter :: "line list \<Rightarrow> nat list \<Rightarrow> line list \<times> message list" where
  \<comment> \<open>lines 68 to 72: the filtered table and what is written to the sidebar\<close>
  "time_filter df selected_months =
     (if selected_months \<noteq> [] then (filter (\<lambda>r. isin (Month r) selected_months) df, [])
      else (df, [St_sidebar_warning All_months_selected]))"


section \<open>The aggregations (lines 82 to 225)\<close>

definition total_sales :: "pandas \<Rightarrow> line list \<Rightarrow> f64" where
  "total_sales pd df_filtered = sum_f64 (series_sum pd) (map TotalPrice df_filtered)"

definition total_orders :: "line list \<Rightarrow> nat" where
  "total_orders df_filtered = nunique (map InvoiceNo df_filtered)"

definition total_customers :: "line list \<Rightarrow> nat" where
  "total_customers df_filtered = nunique (map CustomerID df_filtered)"

definition avg_order_value :: "pandas \<Rightarrow> line list \<Rightarrow> f64" where
  "avg_order_value pd df_filtered =
     (if total_orders df_filtered > 0
      then f64_div (total_sales pd df_filtered) (total_orders df_filtered) else Fin 0)"

definition monthly_summary :: "pandas \<Rightarrow> line list \<Rightarrow> (string \<times> f64 \<times> nat) list" where
  \<comment> \<open>lines 103 to 106\<close>
  "monthly_summary pd df_filtered =
     sort_key fst
       (map (\<lambda>(k, g). (k, group_total pd (map TotalPrice g), nunique (map InvoiceNo g)))
          (groupby YearMonth df_filtered))"

definition daily_sales :: "pandas \<Rightarrow> line list \<Rightarrow> (string \<times> f64) list" where
  \<comment> \<open>line 139\<close>
  "daily_sales pd df_filtered =
     agg_sum_f64 pd TotalPrice (groupby_categorical pd day_order DayOfWeek df_filtered)"

definition hourly_sales :: "pandas \<Rightarrow> line list \<Rightarrow> (string, nat, f64) frame" where
  \<comment> \<open>line 151\<close>
  "hourly_sales pd df_filtered =
     unstack
       (agg_sum_f64 pd TotalPrice
          (groupby_categorical2 pd day_order DayOfWeek Hour df_filtered))
       (Fin 0)"

definition top_selling_products_qty ::
  "pandas \<Rightarrow> line list \<Rightarrow> (string \<times> 64 word) list" where
  \<comment> \<open>line 171\<close>
  "top_selling_products_qty pd df_filtered =
     nlargest pd 10 (\<lambda>e. key_int64 (snd e))
       (agg_sum_int64 Quantity (groupby Description df_filtered))"

definition top_revenue_products :: "pandas \<Rightarrow> line list \<Rightarrow> (string \<times> f64) list" where
  \<comment> \<open>line 184\<close>
  "top_revenue_products pd df_filtered =
     nlargest pd 10 (\<lambda>e. key_f64 (snd e))
       (agg_sum_f64 pd TotalPrice (groupby Description df_filtered))"

definition country_sales :: "pandas \<Rightarrow> line list \<Rightarrow> (string \<times> f64) list" where
  \<comment> \<open>line 201\<close>
  "country_sales pd df_filtered = agg_sum_f64 pd TotalPrice (groupby Country df_filtered)"

definition country_sales_top_10 :: "pandas \<Rightarrow> line list \<Rightarrow> (string \<times> f64) list" where
  \<comment> \<open>line 204\<close>
  "country_sales_top_10 pd df_filtered =
     nlargest pd 11 (\<lambda>e. key_f64 (snd e)) (country_sales pd df_filtered)"

datatype pie_title =
  Title_excluding_UK   \<comment> \<open>line 212: revenue share by country, United Kingdom excluded\<close>
| Title_TOP_10         \<comment> \<open>line 222: revenue share by country (TOP 10)\<close>

definition fig_country :: "pandas \<Rightarrow> line list \<Rightarrow> pie_title \<times> (string \<times> f64) list" where
  \<comment> \<open>lines 205 to 225: the title and the data of the pie chart\<close>
  "fig_country pd df_filtered =
     (if ''United Kingdom'' \<in> set (map fst (country_sales_top_10 pd df_filtered))
      then (Title_excluding_UK,
            filter (\<lambda>e. fst e \<noteq> ''United Kingdom'') (country_sales pd df_filtered))
      else (Title_TOP_10, country_sales_top_10 pd df_filtered))"


section \<open>The program\<close>

record page =
  metrics :: "f64 \<times> nat \<times> nat \<times> f64"
  chart_monthly :: "(string \<times> f64 \<times> nat) list"
  chart_daily :: "(string \<times> f64) list"
  chart_heatmap :: "(string, nat, f64) frame"
  chart_top_qty :: "(string \<times> 64 word) list"
  chart_top_revenue :: "(string \<times> f64) list"
  chart_country :: "pie_title \<times> (string \<times> f64) list"

definition render :: "pandas \<Rightarrow> line list \<Rightarrow> page" where
  "render pd df_filtered =
     \<lparr>metrics = (total_sales pd df_filtered, total_orders df_filtered,
                 total_customers df_filtered, avg_order_value pd df_filtered),
      chart_monthly = monthly_summary pd df_filtered,
      chart_daily = daily_sales pd df_filtered,
      chart_heatmap = hourly_sales pd df_filtered,
      chart_top_qty = top_selling_products_qty pd df_filtered,
      chart_top_revenue = top_revenue_products pd df_filtered,
      chart_country = fig_country pd df_filtered\<rparr>"

definition dashboard ::
  "pandas \<Rightarrow> line list \<Rightarrow> nat list \<Rightarrow> message list \<times> page option" where
  \<comment> \<open>lines 61 to 225 on the preprocessed table: the messages shown, and the page, or
      \<open>None\<close> when \<open>st.stop()\<close> (line 77) ends the run before anything is aggregated\<close>
  "dashboard pd df selected_months =
     (case time_filter df selected_months of
        (df_filtered, sidebar) \<Rightarrow>
          if df_filtered = [] then (sidebar @ [St_warning No_matching_data], None)
          else (sidebar, Some (render pd df_filtered)))"

definition app ::
  "pandas \<Rightarrow> rat option txn list \<Rightarrow> nat list \<Rightarrow> message list \<times> page option" where
  "app pd df_raw selected_months = dashboard pd (preprocess df_raw) selected_months"

section \<open>Example tables\<close>

text \<open>
  Two libraries for the examples. Their sums are the exact sums rounded once; the prices of
  the example tables are small multiples of a half, on which every float64 addition is
  exact, so that any order of additions gives these sums. The first keeps the categories
  that do not occur and leaves equal values in table order, the second drops them and
  reverses equal values.
\<close>

definition value_f64 :: "f64 \<Rightarrow> rat" where
  "value_f64 v = (case v of Fin a \<Rightarrow> a | _ \<Rightarrow> 0)"

definition rounded_sum :: "f64 list \<Rightarrow> f64" where
  "rounded_sum vs =
     (if PInf \<in> set vs then PInf else if NInf \<in> set vs then NInf
      else f64_round (sum_list (map value_f64 vs)))"

definition pandas_2 :: pandas where
  "pandas_2 = \<lparr>observed = False, series_sum = rounded_sum, group_sum = rounded_sum,
                tie = (\<lambda>ks i. i)\<rparr>"

definition pandas_3 :: pandas where
  "pandas_3 = \<lparr>observed = True, series_sum = rounded_sum, group_sum = rounded_sum,
                tie = (\<lambda>ks i. length ks - i)\<rparr>"

text \<open>
  The two rows of the worked example: a sale of three items at 2.50 on Wednesday
  2011-01-05 at 10:00, and a return (quantity -1) an hour later.
\<close>

definition example_sale :: "rat option txn" where
  "example_sale =
     \<lparr>InvoiceNo = ''536365'', Description = ''MUG'', Quantity = 3,
      InvoiceDate = \<lparr>year = 2011, month = 1, day = 5, hour = 10, minute = 0, second = 0\<rparr>,
      UnitPrice = 5 / 2, CustomerID = Some 17850, Country = ''Germany''\<rparr>"

definition example_return :: "rat option txn" where
  "example_return =
     \<lparr>InvoiceNo = ''C536366'', Description = ''MUG'', Quantity = - 1,
      InvoiceDate = \<lparr>year = 2011, month = 1, day = 5, hour = 11, minute = 0, second = 0\<rparr>,
      UnitPrice = 5, CustomerID = Some 17850, Country = ''Germany''\<rparr>"

definition example_raw :: "rat option txn list" where
  "example_raw = [example_sale, example_return]"

text \<open>A week with a second sale, on Friday 2011-01-07 at 14:00.\<close>

definition example_sale_friday :: "rat option txn" where
  "example_sale_friday =
     \<lparr>InvoiceNo = ''536370'', Description = ''BOWL'', Quantity = 2,
      InvoiceDate = \<lparr>year = 2011, month = 1, day = 7, hour = 14, minute = 0, second = 0\<rparr>,
      UnitPrice = 4, CustomerID = Some 12583, Country = ''France''\<rparr>"

definition example_week :: "rat option txn list" where
  "example_week = [example_sale, example_return, example_sale_friday]"

text \<open>
  Three items at 0.10: the unit price is the float64 that \<open>0.1\<close> is read as,
  \<open>3602879701896397 / 2 ^ 55\<close>.
\<close>

definition example_tenth :: "rat option txn" where
  "example_tenth =
     \<lparr>InvoiceNo = ''536367'', Description = ''PEN'', Quantity = 3,
      InvoiceDate = \<lparr>year = 2011, month = 1, day = 5, hour = 10, minute = 0, second = 0\<rparr>,
      UnitPrice = 3602879701896397 / 36028797018963968, CustomerID = Some 17850,
      Country = ''Germany''\<rparr>"

definition example_line :: "string \<Rightarrow> string \<Rightarrow> 64 word \<Rightarrow> rat \<Rightarrow> rat option txn" where
  "example_line description country quantity price =
     \<lparr>InvoiceNo = ''536365'', Description = description, Quantity = quantity,
      InvoiceDate = \<lparr>year = 2011, month = 1, day = 5, hour = 10, minute = 0, second = 0\<rparr>,
      UnitPrice = price, CustomerID = Some 17850, Country = country\<rparr>"

text \<open>Eleven products sold once each, listed in descending order of their names.\<close>

definition example_products :: "rat option txn list" where
  "example_products =
     map (\<lambda>d. example_line d ''Germany'' 1 1)
       [''K'', ''J'', ''I'', ''H'', ''G'', ''F'', ''E'', ''D'', ''C'', ''B'', ''A'']"

text \<open>
  Two products: \<open>A\<close> sold twice, \<open>2 ^ 62\<close> items each time, and \<open>B\<close> sold once, one
  item.
\<close>

definition example_bulk :: "rat option txn list" where
  "example_bulk =
     [example_line ''A'' ''Germany'' 4611686018427387904 1,
      example_line ''B'' ''Germany'' 1 1,
      example_line ''A'' ''Germany'' 4611686018427387904 1]"

text \<open>
  Twelve countries without the United Kingdom, and the same with the United Kingdom
  added, with the smallest revenue of all.
\<close>

definition example_abroad :: "rat option txn list" where
  "example_abroad =
     map (\<lambda>(c, p). example_line ''MUG'' c 1 p)
       [(''Australia'', 2), (''Belgium'', 3), (''Cyprus'', 4), (''Denmark'', 5),
        (''EIRE'', 6), (''Finland'', 7), (''France'', 8), (''Germany'', 9),
        (''Italy'', 10), (''Japan'', 11), (''Norway'', 12), (''Spain'', 13)]"

definition example_countries :: "rat option txn list" where
  "example_countries = example_line ''MUG'' ''United Kingdom'' 1 1 # example_abroad"

text \<open>Three countries, the United Kingdom far ahead of the others.\<close>

definition example_dominant :: "rat option txn list" where
  "example_dominant =
     map (\<lambda>(c, p). example_line ''MUG'' c 1 p)
       [(''France'', 500), (''United Kingdom'', 1000000), (''Germany'', 300)]"


section \<open>Rounding to float64\<close>

lemma bits_0 [simp]: "bits 0 = 0"
  by (simp add: bits.simps)

lemma bits_pos: "0 < n \<Longrightarrow> bits n = Suc (bits (n div 2))"
  by (subst bits.simps) simp

lemma bits_upper: "n < 2 ^ bits n"
proof (induction n rule: bits.induct)
  case (1 n)
  show ?case
  proof (cases "n = 0")
    case True
    then show ?thesis by simp
  next
    case False
    then have "n div 2 < 2 ^ bits (n div 2)" using 1 by simp
    then have "n < 2 * 2 ^ bits (n div 2)" by linarith
    then show ?thesis using False by (simp add: bits_pos)
  qed
qed

lemma bits_lower: "0 < n \<Longrightarrow> 2 ^ (bits n - 1) \<le> n"
proof (induction n rule: bits.induct)
  case (1 n)
  show ?case
  proof (cases "n div 2 = 0")
    case True
    then show ?thesis using "1.prems" by (simp add: bits_pos)
  next
    case False
    then have h: "2 ^ (bits (n div 2) - 1) \<le> n div 2" using 1 by simp
    from False have "0 < bits (n div 2)" by (simp add: bits_pos)
    then have "(2::nat) ^ bits (n div 2) = 2 * 2 ^ (bits (n div 2) - 1)"
      by (cases "bits (n div 2)") simp_all
    with h have "2 ^ bits (n div 2) \<le> n" by linarith
    then show ?thesis using "1.prems" by (simp add: bits_pos)
  qed
qed

lemma pow2_pos [simp]: "0 < pow2 e"
  by (simp add: pow2_def)

lemma pow2_ne0 [simp]: "pow2 e \<noteq> 0"
  by (simp add: pow2_def)

lemma pow2_nonneg [simp]: "0 \<le> pow2 e"
  by (simp add: pow2_def)

lemma abs_pow2 [simp]: "\<bar>pow2 e\<bar> = pow2 e"
  by (simp add: pow2_def)

lemma pow2_nat: "pow2 (int n) = 2 ^ n"
  by (simp add: pow2_def)

lemma pow2_neg_nat: "pow2 (- int n) = 1 / 2 ^ n"
  by (cases n) (simp_all add: pow2_def nat_add_distrib)

lemma pow2_Suc: "pow2 (e + 1) = 2 * pow2 e"
proof (cases "0 \<le> e")
  case True
  then have "nat (e + 1) = Suc (nat e)" by simp
  with True show ?thesis by (simp add: pow2_def)
next
  case False
  then have "nat (- e) = Suc (nat (- (e + 1)))" by simp
  with False show ?thesis by (auto simp: pow2_def)
qed

lemma pow2_add_nat: "pow2 (e + int n) = 2 ^ n * pow2 e"
proof (induction n)
  case 0
  then show ?case by simp
next
  case (Suc n)
  have "e + int (Suc n) = (e + int n) + 1" by simp
  then have "pow2 (e + int (Suc n)) = pow2 ((e + int n) + 1)" by (rule arg_cong)
  then show ?case using Suc by (simp add: pow2_Suc)
qed

lemma pow2_add: "pow2 (a + b) = pow2 a * pow2 b"
proof (cases "0 \<le> b")
  case True
  then obtain n where "b = int n" using nonneg_int_cases by blast
  then show ?thesis by (simp add: pow2_add_nat pow2_nat)
next
  case False
  then obtain n where n: "b = - int n" by (metis int_cases2 nat_le_iff neg_0_le_iff_le of_nat_0_le_iff linear)
  have "pow2 a = pow2 ((a + b) + int n)" using n by simp
  also have "\<dots> = 2 ^ n * pow2 (a + b)" by (rule pow2_add_nat)
  finally show ?thesis using n by (simp add: pow2_neg_nat)
qed

lemma pow2_mono: "a \<le> b \<Longrightarrow> pow2 a \<le> pow2 b"
proof -
  assume "a \<le> b"
  then obtain n where "b = a + int n" by (metis zle_iff_zadd)
  then have "pow2 b = 2 ^ n * pow2 a" by (simp add: pow2_add_nat)
  moreover have "(1::rat) \<le> 2 ^ n" by simp
  ultimately show ?thesis
    using mult_right_mono [of 1 "2 ^ n" "pow2 a"] by simp
qed

lemma pow2_less_imp: "pow2 a < pow2 b \<Longrightarrow> a < b"
  using pow2_mono [of b a] by (cases "a < b") auto

lemma ilog2_lower: "0 < a \<Longrightarrow> pow2 (ilog2 a) \<le> a"
proof (cases "1 \<le> a")
  case True
  then have f: "0 < nat \<lfloor>a\<rfloor>" by simp
  have "pow2 (ilog2 a) = 2 ^ (bits (nat \<lfloor>a\<rfloor>) - 1)"
    using True bits_pos [OF f] by (simp add: ilog2_def pow2_def)
  also have "\<dots> \<le> of_nat (nat \<lfloor>a\<rfloor>)"
    using bits_lower [OF f] by (metis of_nat_le_iff of_nat_numeral of_nat_power)
  also have "\<dots> \<le> a" using True by (simp add: of_nat_nat)
  finally show ?thesis .
next
  case False
  assume pos: "0 < a"
  let ?n = "nat (\<lceil>1 / a\<rceil> - 1)"
  have "1 / a \<le> of_int \<lceil>1 / a\<rceil>" by (rule le_of_int_ceiling)
  moreover have "1 < 1 / a" using False pos by simp
  ultimately have c: "1 < \<lceil>1 / a\<rceil>" by linarith
  have "?n < 2 ^ bits ?n" by (rule bits_upper)
  then have "int ?n < 2 ^ bits ?n" by (metis of_nat_less_iff of_nat_numeral of_nat_power)
  moreover have "0 \<le> \<lceil>1 / a\<rceil> - 1" using c by linarith
  then have "int ?n = \<lceil>1 / a\<rceil> - 1" by (rule nat_0_le)
  ultimately have "\<lceil>1 / a\<rceil> \<le> 2 ^ bits ?n" by linarith
  then have "(of_int \<lceil>1 / a\<rceil> :: rat) \<le> 2 ^ bits ?n"
    by (metis of_int_le_iff of_int_numeral of_int_power)
  then have "1 / a \<le> 2 ^ bits ?n" using le_of_int_ceiling [of "1 / a"] by linarith
  then have "1 / 2 ^ bits ?n \<le> a"
    using pos by (simp add: field_simps)
  moreover have "pow2 (ilog2 a) = 1 / 2 ^ bits ?n"
    using False by (simp add: ilog2_def pow2_neg_nat)
  ultimately show ?thesis by simp
qed

lemma ilog2_less: "0 < a \<Longrightarrow> a < pow2 k \<Longrightarrow> ilog2 a < k"
  using ilog2_lower [of a] pow2_less_imp [of "ilog2 a" k] by simp

lemma round_half_even_error: "\<bar>of_int (round_half_even x) - x\<bar> \<le> 1 / 2"
proof -
  have "of_int \<lfloor>x\<rfloor> \<le> x" "x < of_int \<lfloor>x\<rfloor> + 1" by linarith+
  then show ?thesis
    by (auto simp: round_half_even_def Let_def abs_le_iff)
qed

lemma round_half_even_of_int [simp]: "round_half_even (of_int k) = k"
  by (simp add: round_half_even_def)

lemma round_half_even_nonneg: "0 \<le> x \<Longrightarrow> 0 \<le> round_half_even x"
  by (simp add: round_half_even_def Let_def)


lemma round53_nonneg: "0 \<le> x \<Longrightarrow> 0 \<le> round53 x"
  by (auto simp: round53_def Let_def intro!: mult_nonneg_nonneg round_half_even_nonneg
      divide_nonneg_pos less_imp_le [OF pow2_pos])

lemma round53_exact:
  assumes x: "x = of_int m * pow2 k" and m: "\<bar>m\<bar> < 2 ^ 53" and k: "- 1074 \<le> k"
  shows "round53 x = x"
proof (cases "x = 0")
  case True
  then show ?thesis by (simp add: round53_def)
next
  case False
  define a where "a = \<bar>x\<bar>"
  define e where "e = max (ilog2 a) (- 1022)"
  define u where "u = pow2 (e - 52)"
  have a: "a = of_int \<bar>m\<bar> * pow2 k"
    by (simp add: a_def x abs_mult)
  have apos: "0 < a" using False by (simp add: a_def)
  have upos: "0 < u" by (simp add: u_def)
  have "(of_int \<bar>m\<bar> :: rat) < 2 ^ 53"
    using m by (metis of_int_less_iff of_int_numeral of_int_power)
  then have "a < 2 ^ 53 * pow2 k"
    unfolding a by (intro mult_strict_right_mono) simp_all
  also have "\<dots> = pow2 (k + int 53)" by (simp only: pow2_add_nat)
  finally have "ilog2 a < k + 53" using ilog2_less [OF apos] by simp
  then have d: "0 \<le> k + 52 - e" using k by (simp add: e_def)
  then obtain n where n: "k + 52 - e = int n" using nonneg_int_cases by blast
  have "k = (e - 52) + int n" using n by simp
  then have "pow2 k = 2 ^ n * pow2 (e - 52)" by (metis pow2_add_nat)
  then have pk: "pow2 k = 2 ^ n * u" by (simp only: u_def)
  have q: "a / u = of_int (\<bar>m\<bar> * 2 ^ n)"
    using upos by (simp add: a pk)
  have "of_int (round_half_even (a / u)) * u = a"
    unfolding q round_half_even_of_int using upos by (simp add: a pk)
  then have "of_int (round_half_even (\<bar>x\<bar> / pow2 (max (ilog2 \<bar>x\<bar>) (- 1022) - 52)))
      * pow2 (max (ilog2 \<bar>x\<bar>) (- 1022) - 52) = \<bar>x\<bar>"
    by (simp only: a_def e_def u_def)
  then have "round53 x = (if 0 < x then \<bar>x\<bar> else - \<bar>x\<bar>)"
    using False by (simp only: round53_def Let_def if_False)
  then show ?thesis
    by (simp add: abs_if)
qed

lemma round53_error:
  assumes "pow2 (- 1022) \<le> x"
  shows "\<bar>round53 x - x\<bar> \<le> x * pow2 (- 53)"
proof -
  have pos: "0 < x" using assms pow2_pos [of "- 1022"] by linarith
  let ?e = "max (ilog2 x) (- 1022)"
  let ?u = "pow2 (?e - 52)"
  let ?r = "of_int (round_half_even (x / ?u)) :: rat"
  have r: "round53 x = ?r * ?u"
    using pos by (simp add: round53_def Let_def)
  have e: "pow2 ?e \<le> x"
    using assms ilog2_lower [OF pos] by (simp add: max_def)
  have "\<bar>?r * ?u - x\<bar> = \<bar>?r - x / ?u\<bar> * ?u"
  proof -
    have "?r * ?u - x = (?r - x / ?u) * ?u" by (simp add: field_simps)
    then show ?thesis by (simp add: abs_mult)
  qed
  also have "\<dots> \<le> (1 / 2) * ?u"
    by (intro mult_right_mono round_half_even_error) simp
  also have "\<dots> = pow2 ?e * pow2 (- 53)"
  proof -
    have "?u = pow2 ?e * pow2 (- 52)" using pow2_add [of ?e "- 52"] by simp
    moreover have "pow2 (- 52) = 2 * pow2 (- 53)" by (simp add: pow2_def)
    ultimately show ?thesis by simp
  qed
  also have "\<dots> \<le> x * pow2 (- 53)"
    using e by (intro mult_right_mono) simp_all
  finally show ?thesis unfolding r .
qed

lemma f64_round_exact:
  assumes "x = of_int m * pow2 k" "\<bar>m\<bar> < 2 ^ 53" "- 1074 \<le> k" "\<bar>x\<bar> < pow2 1024"
  shows "f64_round x = Fin x"
proof -
  have "round53 x = x" using assms(1-3) by (rule round53_exact)
  then show ?thesis using assms(4) by (auto simp: f64_round_def Let_def)
qed

lemma f64_round_nonneg:
  assumes "0 \<le> x"
  shows "(0, 0) \<le> key_f64 (f64_round x)"
proof -
  have "0 \<le> round53 x" using assms by (rule round53_nonneg)
  moreover have "- pow2 1024 < 0" by simp
  ultimately show ?thesis
    by (auto simp: f64_round_def Let_def key_f64_def less_eq_prod_def)
qed

lemma float_of_int64_exact:
  assumes "\<bar>sint q\<bar> < 2 ^ 53"
  shows "float_of_int64 q = of_int (sint q)"
proof -
  have "(of_int (sint q) :: rat) = of_int (sint q) * pow2 0"
    by (simp only: pow2_def) simp
  moreover note assms
  moreover have "- 1074 \<le> (0::int)" by simp
  ultimately have "round53 (of_int (sint q)) = of_int (sint q)"
    by (rule round53_exact [where k = 0])
  then show ?thesis by (simp only: float_of_int64_def)
qed

lemma float_of_int64_nonneg:
  assumes "0 \<le> sint q"
  shows "0 \<le> float_of_int64 q"
proof -
  have "(0::rat) \<le> of_int (sint q)" using assms by (simp only: of_int_0_le_iff)
  then show ?thesis unfolding float_of_int64_def by (rule round53_nonneg)
qed

lemma f64_mul_nonneg:
  assumes "0 \<le> sint q" "0 \<le> p"
  shows "(0, 0) \<le> key_f64 (f64_mul q p)"
  unfolding f64_mul_def
  by (intro f64_round_nonneg mult_nonneg_nonneg float_of_int64_nonneg assms)

lemma f64_mul_small:
  assumes "\<bar>sint q\<bar> < 2 ^ 53"
  shows "f64_mul q p = f64_round (of_int (sint q) * p)"
  by (simp only: f64_mul_def float_of_int64_exact [OF assms])

lemma f64_round_error:
  assumes "pow2 (- 1022) \<le> x" "x \<le> pow2 1023"
  shows "\<exists>y. f64_round x = Fin y \<and> \<bar>y - x\<bar> \<le> x * pow2 (- 53)"
proof -
  have err: "\<bar>round53 x - x\<bar> \<le> x * pow2 (- 53)" using assms(1) by (rule round53_error)
  have pos: "0 < x" using assms(1) pow2_pos [of "- 1022"] by linarith
  have "pow2 (- 53) \<le> pow2 0" by (rule pow2_mono) simp
  then have "pow2 (- 53) \<le> 1" by (simp add: pow2_def)
  then have "x * pow2 (- 53) \<le> x * 1" using pos by (intro mult_left_mono) simp_all
  with err have "round53 x \<le> 2 * x" by (simp add: abs_le_iff)
  also have "\<dots> \<le> 2 * pow2 1023" using assms(2) by simp
  also have "\<dots> = pow2 (1023 + 1)" by (simp only: pow2_Suc)
  finally have le: "round53 x \<le> pow2 1024" by simp
  have ne: "round53 x \<noteq> pow2 1024"
  proof
    assume eq: "round53 x = pow2 1024"
    have "pow2 1024 = 2 * pow2 1023" using pow2_Suc [of 1023] by simp
    with eq err assms(2) have "2 * pow2 1023 - x \<le> x * pow2 (- 53)" by (simp add: abs_le_iff)
    moreover have "x * pow2 (- 53) < x * 1"
    proof -
      have "pow2 (- 53) < 1" by (simp add: pow2_def)
      then show ?thesis using pos by (intro mult_strict_left_mono)
    qed
    ultimately show False using assms(2) by simp
  qed
  have nonneg: "0 \<le> round53 x" using pos by (intro round53_nonneg) simp
  have "- pow2 1024 < 0" by simp
  with le ne nonneg have "f64_round x = Fin (round53 x)"
    by (auto simp: f64_round_def Let_def)
  with err show ?thesis by blast
qed


section \<open>Float64 products of the examples\<close>

lemma floor_rat_numeral:
  "\<lfloor>numeral a / numeral b :: rat\<rfloor> = numeral a div numeral b"
  using floor_divide_of_int_eq [of "numeral a" "numeral b", where ?'a = rat] by simp

lemma round_half_even_example: "round_half_even (10808639105689191 / 2) = 5404319552844596"
  by (simp add: round_half_even_def Let_def floor_rat_numeral)

lemma ilog2_upper: "0 < a \<Longrightarrow> a < pow2 (ilog2 a + 1)"
proof (cases "1 \<le> a")
  case True
  let ?n = "nat \<lfloor>a\<rfloor>"
  have f: "0 < ?n" using True by simp
  have "?n < 2 ^ bits ?n" by (rule bits_upper)
  then have "int ?n + 1 \<le> 2 ^ bits ?n"
    by (metis Suc_leI of_nat_Suc of_nat_le_iff of_nat_numeral of_nat_power add.commute
        of_nat_add of_nat_1)
  moreover have "int ?n = \<lfloor>a\<rfloor>" using True by simp
  ultimately have "\<lfloor>a\<rfloor> + 1 \<le> 2 ^ bits ?n" by simp
  then have "(of_int (\<lfloor>a\<rfloor> + 1) :: rat) \<le> 2 ^ bits ?n"
    by (metis of_int_le_iff of_int_numeral of_int_power)
  moreover have "a < of_int (\<lfloor>a\<rfloor> + 1)" by linarith
  ultimately have "a < 2 ^ bits ?n" by linarith
  moreover have "ilog2 a + 1 = int (bits ?n)" using True by (simp add: ilog2_def)
  ultimately show ?thesis by (simp add: pow2_nat)
next
  case False
  assume pos: "0 < a"
  let ?c = "\<lceil>1 / a\<rceil>"
  let ?n = "nat (?c - 1)"
  have "1 < 1 / a" using False pos by simp
  then have c: "1 < ?c" using le_of_int_ceiling [of "1 / a"] by linarith
  have n: "0 < ?n" "int ?n = ?c - 1" using c by linarith+
  have "2 ^ (bits ?n - 1) \<le> ?n" using n(1) by (rule bits_lower)
  then have "(2::int) ^ (bits ?n - 1) \<le> int ?n"
    by (metis of_nat_le_iff of_nat_numeral of_nat_power)
  then have "(2::int) ^ (bits ?n - 1) \<le> ?c - 1" using n(2) by simp
  then have "(of_int (2 ^ (bits ?n - 1)) :: rat) \<le> of_int (?c - 1)"
    by (simp only: of_int_le_iff)
  moreover have "of_int (?c - 1) < 1 / a"
    using ceiling_correct [of "1 / a"] by simp
  ultimately have lt: "2 ^ (bits ?n - 1) < 1 / a" by simp
  have b: "0 < bits ?n" using n(1) by (simp add: bits_pos)
  have "ilog2 a + 1 = - int (bits ?n - 1)"
    using False b by (simp add: ilog2_def)
  then have "pow2 (ilog2 a + 1) = 1 / 2 ^ (bits ?n - 1)"
    by (simp only: pow2_neg_nat)
  moreover have "a < 1 / 2 ^ (bits ?n - 1)"
    using lt pos by (simp add: field_simps)
  ultimately show ?thesis by simp
qed

lemma ilog2_unique:
  assumes "pow2 e \<le> a" "a < pow2 (e + 1)"
  shows "ilog2 a = e"
proof -
  have pos: "0 < a" using assms(1) pow2_pos [of e] by linarith
  have "pow2 (ilog2 a) < pow2 (e + 1)" using ilog2_lower [OF pos] assms(2) by linarith
  then have "ilog2 a < e + 1" by (rule pow2_less_imp)
  moreover have "pow2 e < pow2 (ilog2 a + 1)" using ilog2_upper [OF pos] assms(1) by linarith
  then have "e < ilog2 a + 1" by (rule pow2_less_imp)
  ultimately show ?thesis by simp
qed

lemma round53_eval:
  assumes "pow2 e \<le> x" "x < pow2 (e + 1)" "- 1022 \<le> e"
  shows "round53 x = of_int (round_half_even (x / pow2 (e - 52))) * pow2 (e - 52)"
proof -
  have pos: "0 < x" using assms(1) pow2_pos [of e] by linarith
  have "ilog2 x = e" using assms(1,2) by (rule ilog2_unique)
  then show ?thesis using pos assms(3) by (simp add: round53_def Let_def max_def)
qed

lemma f64_mul_exact:
  assumes "\<bar>sint q\<bar> < 2 ^ 53" "of_int (sint q) * p = of_int m * pow2 k" "\<bar>m\<bar> < 2 ^ 53"
    "- 1074 \<le> k" "\<bar>of_int (sint q) * p\<bar> < pow2 1024"
  shows "f64_mul q p = Fin (of_int (sint q) * p)"
proof -
  have "f64_mul q p = f64_round (of_int (sint q) * p)" using assms(1) by (rule f64_mul_small)
  also have "\<dots> = Fin (of_int (sint q) * p)" using assms(2-5) by (rule f64_round_exact)
  finally show ?thesis .
qed

lemma pow2_1024_large: "(2::rat) ^ 53 \<le> pow2 1024"
  by (simp add: pow2_def)

lemma f64_mul_one_numeral:
  assumes "numeral n < (2::int) ^ 53"
  shows "f64_mul 1 (numeral n) = Fin (numeral n)"
proof -
  have "(numeral n :: rat) < 2 ^ 53"
    using assms by (metis of_int_less_iff of_int_numeral of_int_power)
  then have "(numeral n :: rat) < pow2 1024"
    using pow2_1024_large by (rule order.strict_trans2)
  then have b: "\<bar>of_int (sint (1 :: 64 word)) * (numeral n :: rat)\<bar> < pow2 1024"
    by simp
  have "f64_mul (1 :: 64 word) (numeral n) = Fin (of_int (sint (1 :: 64 word)) * numeral n)"
  proof (rule f64_mul_exact [where m = "numeral n" and k = 0])
    show "\<bar>sint (1 :: 64 word)\<bar> < 2 ^ 53" by simp
    show "of_int (sint (1 :: 64 word)) * (numeral n :: rat) = of_int (numeral n) * pow2 0"
      by (simp add: pow2_def)
    show "\<bar>numeral n :: int\<bar> < 2 ^ 53" using assms by simp
    show "- 1074 \<le> (0::int)" by simp
    show "\<bar>of_int (sint (1 :: 64 word)) * (numeral n :: rat)\<bar> < pow2 1024" by (rule b)
  qed
  then show ?thesis by simp
qed

lemma f64_mul_one_one: "f64_mul 1 1 = Fin 1"
proof -
  have "f64_mul (1 :: 64 word) 1 = Fin (of_int (sint (1 :: 64 word)) * 1)"
    by (rule f64_mul_exact [where m = 1 and k = 0]) (simp_all add: pow2_def)
  then show ?thesis by simp
qed

lemma f64_mul_example_sale: "f64_mul 3 (5 / 2) = Fin (15 / 2)"
proof -
  have "f64_mul (3 :: 64 word) (5 / 2) = Fin (of_int (sint (3 :: 64 word)) * (5 / 2))"
    by (rule f64_mul_exact [where m = 15 and k = "- 1"]) (simp_all add: pow2_def)
  then show ?thesis by simp
qed

lemma f64_mul_example_friday: "f64_mul 2 4 = Fin 8"
proof -
  have "f64_mul (2 :: 64 word) 4 = Fin (of_int (sint (2 :: 64 word)) * 4)"
    by (rule f64_mul_exact [where m = 8 and k = 0]) (simp_all add: pow2_def)
  then show ?thesis by simp
qed

lemma f64_mul_example_tenth:
  "f64_mul 3 (3602879701896397 / 36028797018963968) = Fin (1351079888211149 / 4503599627370496)"
proof -
  let ?x = "10808639105689191 / 36028797018963968 :: rat"
  have "f64_mul (3 :: 64 word) (3602879701896397 / 36028797018963968)
          = f64_round (of_int (sint (3 :: 64 word)) * (3602879701896397 / 36028797018963968))"
    by (rule f64_mul_small) simp
  then have m: "f64_mul (3 :: 64 word) (3602879701896397 / 36028797018963968) = f64_round ?x"
    by simp
  have "round53 ?x = of_int (round_half_even (?x / pow2 (- 2 - 52))) * pow2 (- 2 - 52)"
    by (rule round53_eval) (simp_all add: pow2_def)
  moreover have "?x / pow2 (- 2 - 52) = 10808639105689191 / 2" by (simp add: pow2_def)
  ultimately have "round53 ?x = of_int 5404319552844596 * pow2 (- 2 - 52)"
    by (simp only: round_half_even_example)
  then have r: "round53 ?x = 1351079888211149 / 4503599627370496" by (simp add: pow2_def)
  have "f64_round ?x = Fin (1351079888211149 / 4503599627370496)"
    unfolding f64_round_def Let_def r by (simp add: pow2_def)
  with m show ?thesis by simp
qed


section \<open>Basic facts about the operations\<close>

lemma set_unique [simp]: "set (unique xs) = set xs"
  by (induction xs) auto

lemma distinct_unique [simp]: "distinct (unique xs)"
  by (induction xs) auto

lemma unique_distinct_id: "distinct xs \<Longrightarrow> unique xs = xs"
  by (induction xs) (auto simp: filter_id_conv)

lemma unique_append:
  "unique (xs @ ys) = unique xs @ filter (\<lambda>y. y \<notin> set xs) (unique ys)"
  by (induction xs) (auto simp: conj_commute)

lemma unique_const_map: "ys \<noteq> [] \<Longrightarrow> unique (map (\<lambda>_. x) ys) = [x]"
  by (induction ys) (auto simp: filter_empty_conv)

lemma unique_fst_product:
  "ys \<noteq> [] \<Longrightarrow> unique (map fst (List.product xs ys)) = unique xs"
proof (induction xs)
  case Nil
  then show ?case by simp
next
  case (Cons x xs)
  have "map fst (List.product (x # xs) ys) = map (\<lambda>_. x) ys @ map fst (List.product xs ys)"
    by (simp add: o_def)
  moreover have "(\<lambda>y. y \<notin> set (map (\<lambda>_. x) ys)) = (\<lambda>y. y \<noteq> x)"
    using Cons.prems by (cases ys) auto
  ultimately show ?case using Cons
    by (simp add: unique_append unique_const_map del: product.simps set_map)
qed

lemma with_CustomerID_sel [simp]:
  "InvoiceNo (with_CustomerID c r) = InvoiceNo r"
  "Description (with_CustomerID c r) = Description r"
  "Quantity (with_CustomerID c r) = Quantity r"
  "InvoiceDate (with_CustomerID c r) = InvoiceDate r"
  "UnitPrice (with_CustomerID c r) = UnitPrice r"
  "CustomerID (with_CustomerID c r) = c"
  "Country (with_CustomerID c r) = Country r"
  by (simp_all add: with_CustomerID_def)

lemma with_CustomerID_twice [simp]:
  "with_CustomerID c (with_CustomerID d r) = with_CustomerID c r"
  by (simp add: with_CustomerID_def)



lemma dropna_CustomerID_eq:
  "dropna_CustomerID rows =
     map (\<lambda>r. with_CustomerID (the (CustomerID r)) r) (filter (\<lambda>r. CustomerID r \<noteq> None) rows)"
  by (induction rows) (auto simp: dropna_CustomerID_def List.map_filter_simps split: option.splits)

lemma sanitize_eq:
  "sanitize df_raw =
     map (\<lambda>r. with_CustomerID (astype_int (the (CustomerID r))) r)
       (filter (\<lambda>r. CustomerID r \<noteq> None \<and> 0 < sint (Quantity r) \<and> 0 < UnitPrice r) df_raw)"
  by (induction df_raw) (auto simp: sanitize_def dropna_CustomerID_eq Let_def)

lemma derive_sel [simp]:
  "InvoiceNo (derive r) = InvoiceNo r"
  "Description (derive r) = Description r"
  "Quantity (derive r) = Quantity r"
  "InvoiceDate (derive r) = InvoiceDate r"
  "UnitPrice (derive r) = UnitPrice r"
  "CustomerID (derive r) = CustomerID r"
  "Country (derive r) = Country r"
  "TotalPrice (derive r) = f64_mul (Quantity r) (UnitPrice r)"
  "YearMonth (derive r) = period_M_str (InvoiceDate r)"
  "Month (derive r) = month (InvoiceDate r)"
  "DayOfWeek (derive r) = Some (day_name (InvoiceDate r))"
  "Hour (derive r) = hour (InvoiceDate r)"
  by (simp_all add: derive_def txn.defs line.defs)

lemma categorize_sel [simp]:
  "InvoiceNo (categorize r) = InvoiceNo r"
  "Description (categorize r) = Description r"
  "Quantity (categorize r) = Quantity r"
  "InvoiceDate (categorize r) = InvoiceDate r"
  "UnitPrice (categorize r) = UnitPrice r"
  "CustomerID (categorize r) = CustomerID r"
  "Country (categorize r) = Country r"
  "TotalPrice (categorize r) = TotalPrice r"
  "YearMonth (categorize r) = YearMonth r"
  "Month (categorize r) = Month r"
  "DayOfWeek (categorize r) = Categorical day_order (DayOfWeek r)"
  "Hour (categorize r) = Hour r"
  by (simp_all add: categorize_def)

lemma nat_mod_7_less: "nat ((x::int) mod 7) < 7"
  by (simp add: nat_less_iff)

lemma dayofweek_less_7: "dayofweek y m d < 7"
  unfolding dayofweek_def Let_def by (rule nat_mod_7_less)

lemma day_name_in_DAYS_FULL: "day_name ts \<in> set DAYS_FULL"
proof -
  have "length DAYS_FULL = 7" by (simp add: DAYS_FULL_def)
  then have "dayofweek (year ts) (month ts) (day ts) < length DAYS_FULL"
    using dayofweek_less_7 by simp
  then show ?thesis
    unfolding day_name_def by (rule nth_mem)
qed

lemma day_order_DAYS_FULL: "day_order = DAYS_FULL"
  by (simp add: day_order_def DAYS_FULL_def)

lemma day_name_in_day_order: "day_name ts \<in> set day_order"
  by (simp add: day_order_DAYS_FULL day_name_in_DAYS_FULL)

lemma Categorical_day_name [simp]:
  "Categorical day_order (Some (day_name ts)) = Some (day_name ts)"
  by (simp add: Categorical_def day_name_in_day_order)


lemma preprocess_row:
  assumes "r \<in> set (preprocess df_raw)"
  shows "\<exists>s \<in> set (sanitize df_raw). r = categorize (derive s)"
  using assms by (auto simp: preprocess_def)

lemma sanitize_row:
  assumes "s \<in> set (sanitize df_raw)"
  shows "0 < sint (Quantity s) \<and> 0 < UnitPrice s"
  using assms by (auto simp: sanitize_eq)

lemma preprocess_props:
  assumes "r \<in> set (preprocess df_raw)"
  shows "0 < sint (Quantity r)" "0 < UnitPrice r"
    "TotalPrice r = f64_mul (Quantity r) (UnitPrice r)"
    "(0, 0) \<le> key_f64 (TotalPrice r)" "DayOfWeek r = Some (day_name (InvoiceDate r))"
    "Month r = month (InvoiceDate r)" "Hour r = hour (InvoiceDate r)"
proof -
  obtain s where s: "s \<in> set (sanitize df_raw)" "r = categorize (derive s)"
    using preprocess_row [OF assms] by blast
  from sanitize_row [OF s(1)] have pos: "0 < sint (Quantity s)" "0 < UnitPrice s" by simp_all
  show q: "0 < sint (Quantity r)" and p: "0 < UnitPrice r" using pos s(2) by simp_all
  show t: "TotalPrice r = f64_mul (Quantity r) (UnitPrice r)" using s(2) by simp
  have "(0, 0) \<le> key_f64 (f64_mul (Quantity r) (UnitPrice r))"
    using q p by (intro f64_mul_nonneg) simp_all
  then show "(0, 0) \<le> key_f64 (TotalPrice r)" by (simp only: t)
  show "DayOfWeek r = Some (day_name (InvoiceDate r))" using s(2) by simp
  show "Month r = month (InvoiceDate r)" "Hour r = hour (InvoiceDate r)" using s(2) by simp_all
qed

lemmas example_rows =
  example_raw_def example_week_def example_sale_def example_return_def example_sale_friday_def

lemma preprocess_example_raw:
  "preprocess example_raw = [categorize (derive (with_CustomerID 17850 example_sale))]"
  by (simp add: preprocess_def sanitize_eq example_rows astype_int_def)


section \<open>The sanitizer\<close>




section \<open>The derived fields\<close>

text \<open>
  C4. For every row of the preprocessed table, \<open>TotalPrice\<close> is the float64 product of the
  row's quantity and unit price: for a quantity below \<open>2 ^ 53\<close>, the exact product rounded
  to the nearest float64. It is the exact product when that is a float64 itself (an integer
  of less than 53 bits times a power of two), and in the normal range it is off by at most
  the fraction \<open>2 ^ - 53\<close> of the exact product.
\<close>
theorem total_price_rounded:
  "map TotalPrice (preprocess df_raw) =
     map (\<lambda>s. f64_mul (Quantity s) (UnitPrice s)) (sanitize df_raw) \<and>
   (\<forall>r \<in> set (preprocess df_raw).
      (sint (Quantity r) < 2 ^ 53 \<longrightarrow>
         TotalPrice r = f64_round (of_int (sint (Quantity r)) * UnitPrice r)) \<and>
      (\<forall>m k. sint (Quantity r) < 2 ^ 53 \<and>
             of_int (sint (Quantity r)) * UnitPrice r = of_int m * pow2 k \<and>
             \<bar>m\<bar> < 2 ^ 53 \<and> - 1074 \<le> k \<and>
             of_int (sint (Quantity r)) * UnitPrice r < pow2 1024 \<longrightarrow>
         TotalPrice r = Fin (of_int (sint (Quantity r)) * UnitPrice r)) \<and>
      (sint (Quantity r) < 2 ^ 53 \<and>
       pow2 (- 1022) \<le> of_int (sint (Quantity r)) * UnitPrice r \<and>
       of_int (sint (Quantity r)) * UnitPrice r \<le> pow2 1023 \<longrightarrow>
         (\<exists>y. TotalPrice r = Fin y \<and>
              \<bar>y - of_int (sint (Quantity r)) * UnitPrice r\<bar>
                \<le> of_int (sint (Quantity r)) * UnitPrice r * pow2 (- 53))))"
proof (intro conjI ballI)
  show "map TotalPrice (preprocess df_raw) =
     map (\<lambda>s. f64_mul (Quantity s) (UnitPrice s)) (sanitize df_raw)"
    by (simp add: preprocess_def o_def)
next
  fix r
  assume r: "r \<in> set (preprocess df_raw)"
  let ?x = "of_int (sint (Quantity r)) * UnitPrice r"
  note q = preprocess_props(1) [OF r] and p = preprocess_props(2) [OF r]
    and t = preprocess_props(3) [OF r]
  have "(0::rat) < of_int (sint (Quantity r))" using q by (simp only: of_int_0_less_iff)
  then have x: "0 < ?x" using p by (rule mult_pos_pos)
  have small: "\<bar>sint (Quantity r)\<bar> < 2 ^ 53" if "sint (Quantity r) < 2 ^ 53"
    using that q by simp
  show "sint (Quantity r) < 2 ^ 53 \<longrightarrow> TotalPrice r = f64_round ?x"
    using small t f64_mul_small by metis
  show "\<forall>m k. sint (Quantity r) < 2 ^ 53 \<and> ?x = of_int m * pow2 k \<and>
             \<bar>m\<bar> < 2 ^ 53 \<and> - 1074 \<le> k \<and> ?x < pow2 1024 \<longrightarrow> TotalPrice r = Fin ?x"
  proof (intro allI impI)
    fix m k
    assume h: "sint (Quantity r) < 2 ^ 53 \<and> ?x = of_int m * pow2 k \<and>
             \<bar>m\<bar> < 2 ^ 53 \<and> - 1074 \<le> k \<and> ?x < pow2 1024"
    have "f64_mul (Quantity r) (UnitPrice r) = Fin ?x"
    proof (rule f64_mul_exact)
      show "\<bar>sint (Quantity r)\<bar> < 2 ^ 53" using h small by blast
      show "?x = of_int m * pow2 k" using h by blast
      show "\<bar>m\<bar> < 2 ^ 53" using h by blast
      show "- 1074 \<le> k" using h by blast
      have "?x < pow2 1024" using h by blast
      then show "\<bar>?x\<bar> < pow2 1024" using x by linarith
    qed
    then show "TotalPrice r = Fin ?x" by (simp only: t)
  qed
  show "sint (Quantity r) < 2 ^ 53 \<and> pow2 (- 1022) \<le> ?x \<and> ?x \<le> pow2 1023 \<longrightarrow>
         (\<exists>y. TotalPrice r = Fin y \<and> \<bar>y - ?x\<bar> \<le> ?x * pow2 (- 53))"
  proof (intro impI)
    assume h: "sint (Quantity r) < 2 ^ 53 \<and> pow2 (- 1022) \<le> ?x \<and> ?x \<le> pow2 1023"
    then have "TotalPrice r = f64_round ?x"
      using small t f64_mul_small by metis
    moreover have "\<exists>y. f64_round ?x = Fin y \<and> \<bar>y - ?x\<bar> \<le> ?x * pow2 (- 53)"
      using h by (intro f64_round_error) blast+
    ultimately show "\<exists>y. TotalPrice r = Fin y \<and> \<bar>y - ?x\<bar> \<le> ?x * pow2 (- 53)"
      by (simp only:)
  qed
qed

theorem total_price_rounded_witness:
  "map TotalPrice (preprocess example_raw) = [Fin (15 / 2)] \<and>
   map (\<lambda>r. of_int (sint (Quantity r)) * UnitPrice r) (preprocess example_raw) = [15 / 2] \<and>
   (15 / 2 :: rat) = of_int 15 * pow2 (- 1)"
proof -
  have a: "map TotalPrice (preprocess example_raw) = [Fin (15 / 2)]"
    by (simp add: preprocess_example_raw example_sale_def f64_mul_example_sale)
  have b: "map (\<lambda>r. of_int (sint (Quantity r)) * UnitPrice r) (preprocess example_raw)
             = [15 / 2]"
    by (simp add: preprocess_example_raw example_sale_def)
  have c: "(15 / 2 :: rat) = of_int 15 * pow2 (- 1)" by (simp add: pow2_def)
  from total_price_rounded [of "example_raw"] a b c show ?thesis by blast
qed

theorem total_price_rounded_counterexample:
  "map TotalPrice (preprocess [example_tenth])
     = [Fin (1351079888211149 / 4503599627370496)] \<and>
   map (\<lambda>r. of_int (sint (Quantity r)) * UnitPrice r) (preprocess [example_tenth])
     = [10808639105689191 / 36028797018963968] \<and>
   (1351079888211149 / 4503599627370496 :: rat) \<noteq> 10808639105689191 / 36028797018963968"
  by (simp add: preprocess_def sanitize_eq example_tenth_def f64_mul_example_tenth)


section \<open>The month filter\<close>

lemma time_filter_empty_selection:
  "time_filter df [] = (df, [St_sidebar_warning All_months_selected])"
  by (simp add: time_filter_def)

lemma time_filter_selection:
  "selected_months \<noteq> [] \<Longrightarrow>
   time_filter df selected_months = (filter (\<lambda>r. Month r \<in> set selected_months) df, [])"
  by (simp add: time_filter_def isin_def)


lemma dashboard_messages:
  "fst (dashboard pd df selected_months) =
     snd (time_filter df selected_months) @
     (if fst (time_filter df selected_months) = [] then [St_warning No_matching_data] else [])"
  by (simp add: dashboard_def split: prod.splits)

lemma dashboard_page:
  "snd (dashboard pd df selected_months) =
     (if fst (time_filter df selected_months) = [] then None
      else Some (render pd (fst (time_filter df selected_months))))"
  by (simp add: dashboard_def split: prod.splits)

text \<open>
  C6. With an empty selection the filter returns the whole preprocessed table (so the same
  multiset of rows), and the sidebar warning is written; the warning is written in that
  case only.
\<close>
theorem empty_selection_fallback:
  "fst (time_filter (preprocess df_raw) []) = preprocess df_raw \<and>
   mset (fst (time_filter (preprocess df_raw) [])) = mset (preprocess df_raw) \<and>
   snd (time_filter (preprocess df_raw) []) = [St_sidebar_warning All_months_selected] \<and>
   (St_sidebar_warning All_months_selected \<in> set (fst (app pd df_raw selected_months)))
     = (selected_months = [])"
proof -
  have "(St_sidebar_warning All_months_selected \<in> set (fst (app pd df_raw selected_months)))
     = (selected_months = [])"
    by (cases "selected_months = []")
       (simp_all add: app_def dashboard_messages time_filter_empty_selection time_filter_selection)
  then show ?thesis
    by (simp add: time_filter_empty_selection)
qed

theorem empty_selection_fallback_witness:
  "fst (time_filter (preprocess example_raw) []) = preprocess example_raw \<and>
   preprocess example_raw \<noteq> [] \<and>
   fst (app pandas_2 example_raw []) = [St_sidebar_warning All_months_selected]"
  using empty_selection_fallback [of "example_raw" pandas_2 "[]"]
  by (simp add: app_def dashboard_messages time_filter_empty_selection preprocess_example_raw)

text \<open>
  C7. When the filtered table has no rows, the run stops with the no-data warning and no
  page: nothing is aggregated. When it has rows, the page is rendered from them and the
  no-data warning is not shown.
\<close>
theorem empty_result_halts:
  "(fst (time_filter (preprocess df_raw) selected_months) = [] \<longrightarrow>
      snd (app pd df_raw selected_months) = None \<and>
      fst (app pd df_raw selected_months) =
        snd (time_filter (preprocess df_raw) selected_months) @ [St_warning No_matching_data]) \<and>
   (fst (time_filter (preprocess df_raw) selected_months) \<noteq> [] \<longrightarrow>
      snd (app pd df_raw selected_months) =
        Some (render pd (fst (time_filter (preprocess df_raw) selected_months))) \<and>
      St_warning No_matching_data \<notin> set (fst (app pd df_raw selected_months)))"
  by (auto simp: app_def dashboard_messages dashboard_page time_filter_def)

theorem empty_result_halts_witness:
  "fst (time_filter (preprocess example_raw) [2]) = [] \<and>
   app pandas_2 example_raw [2] = ([St_warning No_matching_data], None)"
proof -
  have e: "fst (time_filter (preprocess example_raw) [2]) = []"
    by (simp add: time_filter_def isin_def preprocess_example_raw example_sale_def)
  have s: "snd (time_filter (preprocess example_raw) [2]) = []"
    by (simp add: time_filter_def)
  from empty_result_halts [of "example_raw" "[2]" pandas_2] e s show ?thesis
    by (simp add: prod_eq_iff)
qed

text \<open>
  C10. When the selection is drawn from the offered options, the distinct months of the
  table, a non-empty selection always leaves rows; the run stops without a page exactly
  when the table itself is empty, and never for a non-empty selection.
\<close>
theorem offered_months_give_rows:
  assumes "set selected_months \<subseteq> set (month_options df)"
  shows "(selected_months \<noteq> [] \<longrightarrow> fst (time_filter df selected_months) \<noteq> []) \<and>
         (snd (dashboard pd df selected_months) = None) = (df = []) \<and>
         (selected_months \<noteq> [] \<longrightarrow> snd (dashboard pd df selected_months) \<noteq> None)"
proof -
  have a: "fst (time_filter df selected_months) \<noteq> []" if ne: "selected_months \<noteq> []"
  proof -
    from ne obtain m where m: "m \<in> set selected_months" by (cases selected_months) auto
    with assms have "m \<in> Month ` set df" by (auto simp: month_options_def)
    then obtain r where "r \<in> set df" "Month r = m" by auto
    with m have "filter (\<lambda>r. Month r \<in> set selected_months) df \<noteq> []"
      by (auto simp: filter_empty_conv)
    then show ?thesis using ne by (simp add: time_filter_selection)
  qed
  have b: "(fst (time_filter df selected_months) = []) = (df = [])"
  proof (cases "selected_months = []")
    case True
    then show ?thesis by (simp add: time_filter_empty_selection)
  next
    case False
    with a have "fst (time_filter df selected_months) \<noteq> []" by simp
    moreover have "df \<noteq> []" using False assms by (auto simp: month_options_def)
    ultimately show ?thesis by simp
  qed
  show ?thesis using a b by (simp add: dashboard_page)
qed

theorem offered_months_give_rows_witness:
  "set [1] \<subseteq> set (month_options (preprocess example_raw)) \<and>
   fst (time_filter (preprocess example_raw) [1]) \<noteq> [] \<and>
   snd (dashboard pandas_2 (preprocess example_raw) [1]) \<noteq> None"
proof -
  have h: "set [1] \<subseteq> set (month_options (preprocess example_raw))"
    by (simp add: month_options_def preprocess_example_raw example_sale_def)
  have n: "[1::nat] \<noteq> []" by simp
  from offered_months_give_rows [OF h] h n show ?thesis by blast
qed

end
